theory Spec2Isabelle
  imports Main
begin

section \<open>JavaScript values\<close>

text \<open>
  The values that flow through \<^verbatim>\<open>OptimizedController\<close>: primitives carry their
  content, objects and functions are references (\<open>JRef\<close>) into the JavaScript heap.
  What an object holds is not part of the value, so writing to an object in place leaves
  every reference to it as it was. Numbers are the integral ones, with \<open>JNum 0\<close> for
  \<open>+0\<close>, and the two numbers on which \<^verbatim>\<open>Object.is\<close> and \<^verbatim>\<open>===\<close> disagree.
\<close>

datatype jsval =
    JUndefined
  | JNull
  | JBool bool
  | JNum int
  | JNaN
  | JNegZero
  | JStr string
  | JRef nat

text \<open>\<^verbatim>\<open>Object.is\<close> (SameValue): primitives by content, references by address.\<close>

fun object_is :: "jsval \<Rightarrow> jsval \<Rightarrow> bool" where
  "object_is JUndefined JUndefined = True"
| "object_is JNull JNull = True"
| "object_is (JBool a) (JBool b) = (a = b)"
| "object_is (JNum a) (JNum b) = (a = b)"
| "object_is JNaN JNaN = True"
| "object_is JNegZero JNegZero = True"
| "object_is (JStr a) (JStr b) = (a = b)"
| "object_is (JRef a) (JRef b) = (a = b)"
| "object_is _ _ = False"

section \<open>The provider's interface (react-hook-form)\<close>

text \<open>
  Modelled from the spec: the types of react-hook-form are imported by the source and
  declared outside the repository. The specification (3, 4.1 and 6) gives what they
  hold: a field with \<open>value\<close>, \<open>disabled\<close>, the change and blur handlers, the field name
  and the ref binding, next to the field state (touched, dirty, validation error) and
  the form state.

  A function value has an identity (the address of the function object) and a behaviour.
  The handlers of a field act on the world outside the component, \<open>'w\<close>: the provider's
  form state and the rest of the heap.
\<close>

record 'w handler =
  h_ref :: nat
  h_run :: "jsval \<Rightarrow> 'w \<Rightarrow> 'w"

text \<open>
  \<^verbatim>\<open>ControllerRenderProps\<close>, the type of \<^verbatim>\<open>useController(...).field\<close>.
  \<^verbatim>\<open>value\<close> is of any type, \<^verbatim>\<open>disabled\<close> is \<^verbatim>\<open>boolean | undefined\<close>.
\<close>

record 'w field =
  onChange :: "'w handler"
  onBlur :: "'w handler"
  fvalue :: jsval
  disabled :: jsval
  name :: string
  ref :: "'w handler"

text \<open>\<^verbatim>\<open>ControllerFieldState\<close> and the part of \<^verbatim>\<open>UseFormStateReturn\<close> that matters here.\<close>

record fieldState =
  invalid :: bool
  isTouched :: bool
  isDirty :: bool
  isValidating :: bool
  error :: "string option"

record formState =
  isSubmitting :: bool
  isValid :: bool
  submitCount :: nat
  errors :: "(string \<times> string) list"

record 'w UseControllerReturn =
  field :: "'w field"
  fieldState :: fieldState
  formState :: formState

text \<open>
  What a call can throw: the failures of \<^verbatim>\<open>useController\<close> by the kinds the specification
  names, and any other value (a function of the caller throws what it likes).
\<close>

datatype thrown =
    MissingContext
  | InvalidFieldName string
  | ValidationFailure string
  | Thrown jsval

section \<open>The component's props and the state it runs in\<close>

text \<open>
  The render prop: a function from the field to a \<^verbatim>\<open>ReactElement\<close>. It is JavaScript,
  so it may read and write the world, it may throw (\<open>Inl\<close>) instead of returning, and the
  element it returns is a value of its own choosing (a JSX body allocates a new object on
  every call).
\<close>

record 'w render_fn =
  fn_ref :: nat
  fn_call :: "'w field \<Rightarrow> 'w \<Rightarrow> (thrown + jsval) \<times> 'w"

text \<open>
  \<^verbatim>\<open>OptimizedControllerProps\<close>: \<^verbatim>\<open>ControllerProps\<close> without its \<^verbatim>\<open>render\<close>, and the
  narrower \<^verbatim>\<open>render\<close> in its place.
\<close>

record 'w props =
  p_name :: string
  p_control :: jsval
  p_rules :: jsval
  p_shouldUnregister :: jsval
  p_defaultValue :: jsval
  p_disabled :: jsval
  render :: "'w render_fn"

text \<open>
  The state one mounted instance runs in: the cell of its single \<^verbatim>\<open>useMemo\<close> (the cached
  value with the dependency array it was computed for), the world, and a log of the calls
  made to render functions (the callee's identity and its argument), which is how
  "invoked once" and "not invoked" are observed.
\<close>

record 'w runtime =
  memo :: "(jsval \<times> jsval list) option"
  invocations :: "(nat \<times> 'w field) list"
  world :: 'w

definition mount :: "'w \<Rightarrow> 'w runtime" where
  "mount w = \<lparr>memo = None, invocations = [], world = w\<rparr>"

section \<open>React's memoization hook\<close>

text \<open>
  Modelled from the spec: \<^verbatim>\<open>useMemo\<close> is React's and its code is not in the
  repository. The specification (4.1, Behavior) gives what it does: the dependencies are
  compared with the previous ones, by identity for objects and by equality for primitives;
  when none changed the previously produced value is returned and nothing is recomputed,
  otherwise the factory is called and its result cached with the new dependencies.
  On the first render there is nothing cached and the factory is called. A factory that
  throws leaves the hook by its exception, before anything is cached.
\<close>

fun areHookInputsEqual :: "jsval list \<Rightarrow> jsval list \<Rightarrow> bool" where
  "areHookInputsEqual (n # nextDeps) (p # prevDeps) =
     (if object_is n p then areHookInputsEqual nextDeps prevDeps else False)"
| "areHookInputsEqual _ _ = True"

definition useMemo ::
  "('w runtime \<Rightarrow> (thrown + jsval) \<times> 'w runtime) \<Rightarrow> jsval list \<Rightarrow> 'w runtime
     \<Rightarrow> (thrown + jsval) \<times> 'w runtime" where
  "useMemo factory deps s =
     (case memo s of
        Some (prevValue, prevDeps) \<Rightarrow>
          if areHookInputsEqual deps prevDeps then (Inr prevValue, s)
          else (case factory s of
                  (Inl e, s') \<Rightarrow> (Inl e, s')
                | (Inr v, s') \<Rightarrow> (Inr v, s'\<lparr>memo := Some (v, deps)\<rparr>))
      | None \<Rightarrow>
          (case factory s of
             (Inl e, s') \<Rightarrow> (Inl e, s')
           | (Inr v, s') \<Rightarrow> (Inr v, s'\<lparr>memo := Some (v, deps)\<rparr>)))"

section \<open>OptimizedController\<close>

text \<open>
  The call \<^verbatim>\<open>render(field)\<close>: the function is applied to the field and runs on the
  world; the call is logged. What it returns or throws is the outcome of the call.
\<close>

definition call_render ::
  "'w render_fn \<Rightarrow> 'w field \<Rightarrow> 'w runtime \<Rightarrow> (thrown + jsval) \<times> 'w runtime" where
  "call_render r f s =
     (let (res, w') = fn_call r f (world s)
      in (res, s\<lparr>invocations := invocations s @ [(fn_ref r, f)], world := w'\<rparr>))"

text \<open>
  One render pass of the component. \<open>useController\<close> is the provider's hook as it answers
  in this pass: it throws (\<open>Inl\<close>) or returns the field with \<open>fieldState\<close> and \<open>formState\<close>.
  \<^verbatim>\<open>
  const { render } = props;
  const { field } = useController(props);
  const { value, disabled } = field;
  return useMemo(() => render(field), [value, disabled, render]);
  \<close>
  There is no \<^verbatim>\<open>try\<close> in the function: an exception of \<^verbatim>\<open>useController\<close> leaves it
  before \<^verbatim>\<open>useMemo\<close> is reached, and an exception of \<^verbatim>\<open>render\<close> leaves it through
  \<^verbatim>\<open>useMemo\<close>.
\<close>

definition OptimizedController ::
  "('w props \<Rightarrow> thrown + 'w UseControllerReturn) \<Rightarrow> 'w props \<Rightarrow> 'w runtime
     \<Rightarrow> (thrown + jsval) \<times> 'w runtime" where
  "OptimizedController useController props s =
     (let render' = render props in
      case useController props of
        Inl e \<Rightarrow> (Inl e, s)
      | Inr r \<Rightarrow>
          (let field' = field r;
               value' = fvalue field';
               disabled' = disabled field'
           in useMemo (call_render render' field')
                [value', disabled', JRef (fn_ref render')] s))"

section \<open>Sequences of render passes\<close>

text \<open>
  One update of the instance: what the rest of the program did to the world since the
  last pass (an object written in place is such a change), the provider's hook as it
  answers now, and the props the parent passes now.
\<close>

record 'w update =
  u_env :: "'w \<Rightarrow> 'w"
  u_hook :: "'w props \<Rightarrow> thrown + 'w UseControllerReturn"
  u_props :: "'w props"

definition rerender :: "'w update \<Rightarrow> 'w runtime \<Rightarrow> (thrown + jsval) \<times> 'w runtime" where
  "rerender u s =
     OptimizedController (u_hook u) (u_props u) (s\<lparr>world := u_env u (world s)\<rparr>)"

text \<open>
  The passes of one instance, in order. A pass that throws ends the run: React discards
  an instance whose render threw.
\<close>

fun run :: "'w update list \<Rightarrow> 'w runtime \<Rightarrow> (thrown + jsval) list \<times> 'w runtime" where
  "run [] s = ([], s)"
| "run (u # us) s =
     (case rerender u s of
        (Inl e, s') \<Rightarrow> ([Inl e], s')
      | (Inr node, s') \<Rightarrow> (let (outs, s'') = run us s' in (Inr node # outs, s'')))"

text \<open>The field the provider hands out in an update, when it does not throw.\<close>

definition field_of :: "'w update \<Rightarrow> 'w field option" where
  "field_of u = (case u_hook u (u_props u) of Inl e \<Rightarrow> None | Inr r \<Rightarrow> Some (field r))"

definition render_of :: "'w update \<Rightarrow> nat" where
  "render_of u = fn_ref (render (u_props u))"

text \<open>Neither \<open>value\<close> nor \<open>disabled\<close> changes from one update to the next.\<close>

definition same_pair :: "'w field \<Rightarrow> 'w field \<Rightarrow> bool" where
  "same_pair f g = (object_is (fvalue g) (fvalue f) \<and> object_is (disabled g) (disabled f))"

fun pair_unchanged_from :: "'w field \<Rightarrow> 'w update list \<Rightarrow> bool" where
  "pair_unchanged_from f [] = True"
| "pair_unchanged_from f (u # us) =
     (case field_of u of None \<Rightarrow> False | Some g \<Rightarrow> same_pair f g \<and> pair_unchanged_from g us)"

fun pair_unchanged :: "'w update list \<Rightarrow> bool" where
  "pair_unchanged [] = True"
| "pair_unchanged (u # us) =
     (case field_of u of None \<Rightarrow> False | Some f \<Rightarrow> pair_unchanged_from f us)"

text \<open>The render prop is the same function object from one update to the next.\<close>

fun render_unchanged_from :: "nat \<Rightarrow> 'w update list \<Rightarrow> bool" where
  "render_unchanged_from k [] = True"
| "render_unchanged_from k (u # us) = (render_of u = k \<and> render_unchanged_from (render_of u) us)"

fun render_unchanged :: "'w update list \<Rightarrow> bool" where
  "render_unchanged [] = True"
| "render_unchanged (u # us) = render_unchanged_from (render_of u) us"

text \<open>The calls to render functions made between two states of the log.\<close>

definition invoked_between :: "'w runtime \<Rightarrow> 'w runtime \<Rightarrow> (nat \<times> 'w field) list" where
  "invoked_between s s' = drop (length (invocations s)) (invocations s')"


text \<open>The dependency array of a logged call.\<close>

definition deps_of :: "nat \<times> 'w field \<Rightarrow> jsval list" where
  "deps_of c = [fvalue (snd c), disabled (snd c), JRef (fst c)]"

text \<open>
  What a pass does when it recomputes: one call of the current render function, applied
  to the field, in the current world. The outcome of the call is the outcome of the pass,
  and a node that is returned is cached with the dependencies of this pass.
\<close>

definition recomputed :: "'w props \<Rightarrow> 'w field \<Rightarrow> 'w runtime \<Rightarrow> (thrown + jsval) \<times> 'w runtime" where
  "recomputed props f s =
     (let (res, w') = fn_call (render props) f (world s);
          s' = s\<lparr>invocations := invocations s @ [(fn_ref (render props), f)], world := w'\<rparr>
      in case res of
           Inl e \<Rightarrow> (Inl e, s')
         | Inr node \<Rightarrow>
             (Inr node,
              s'\<lparr>memo := Some (node, [fvalue f, disabled f, JRef (fn_ref (render props))])\<rparr>))"


section \<open>What the memo cell holds\<close>

text \<open>The cell of this component is empty or holds an array of three dependencies.\<close>

definition cell_shaped :: "'w runtime \<Rightarrow> bool" where
  "cell_shaped s = (case memo s of None \<Rightarrow> True | Some (n, ds) \<Rightarrow> length ds = 3)"

text \<open>
  As long as no pass has thrown: the cell is empty exactly as long as nothing was
  rendered, otherwise it holds the dependency array of the last call that was made; and
  no call in the log has the dependency array of the call before it.
\<close>

definition cell_tracks_log :: "'w runtime \<Rightarrow> bool" where
  "cell_tracks_log s =
     ((case memo s of
         None \<Rightarrow> invocations s = []
       | Some (n, ds) \<Rightarrow> invocations s \<noteq> [] \<and> ds = deps_of (last (invocations s)))
      \<and> distinct_adj (map deps_of (invocations s)))"

section \<open>A small form, for concrete runs\<close>

text \<open>
  A world with the values the provider received from \<open>onChange\<close>, its touched flag, the
  number of elements allocated so far, the contents of the heap's objects and what the
  render function saw of each view it was given (name, value, disabled flag and the
  identities of the three handlers); a provider for the field \<open>test\<close>; and a render
  function with a JSX body, which builds a new element on each call.
\<close>

record demo_world =
  received :: "jsval list"
  touched :: bool
  elements :: nat
  heap :: "(nat \<times> jsval) list"
  seen :: "(string \<times> jsval \<times> jsval \<times> nat \<times> nat \<times> nat) list"

definition demo_world0 :: demo_world where
  "demo_world0 =
     \<lparr>received = [], touched = False, elements = 0, heap = [(7, JStr ''a'')], seen = []\<rparr>"

definition demo_field :: "jsval \<Rightarrow> jsval \<Rightarrow> demo_world field" where
  "demo_field v d =
     \<lparr>onChange = \<lparr>h_ref = 100, h_run = (\<lambda>x w. w\<lparr>received := received w @ [x]\<rparr>)\<rparr>,
      onBlur = \<lparr>h_ref = 101, h_run = (\<lambda>x w. w\<lparr>touched := True\<rparr>)\<rparr>,
      fvalue = v,
      disabled = d,
      name = ''test'',
      ref = \<lparr>h_ref = 102, h_run = (\<lambda>x w. w)\<rparr>\<rparr>"

definition demo_hook ::
  "jsval \<Rightarrow> jsval \<Rightarrow> bool \<Rightarrow> demo_world props \<Rightarrow> thrown + demo_world UseControllerReturn" where
  "demo_hook v d t props =
     (if p_control props = JUndefined then Inl MissingContext
      else Inr \<lparr>field = demo_field v d,
                fieldState = \<lparr>invalid = False, isTouched = t, isDirty = False,
                               isValidating = False, error = None\<rparr>,
                formState = \<lparr>isSubmitting = False, isValid = True, submitCount = 0,
                              errors = []\<rparr>\<rparr>)"

definition demo_render :: "nat \<Rightarrow> demo_world render_fn" where
  "demo_render k =
     \<lparr>fn_ref = k,
      fn_call = (\<lambda>f w.
        (Inr (JRef (1000 + elements w)),
         w\<lparr>elements := Suc (elements w),
           seen := seen w @ [(name f, fvalue f, disabled f, h_ref (onChange f),
                              h_ref (onBlur f), h_ref (ref f))]\<rparr>))\<rparr>"


definition demo_props :: "jsval \<Rightarrow> nat \<Rightarrow> demo_world props" where
  "demo_props c k =
     \<lparr>p_name = ''test'', p_control = c, p_rules = JUndefined,
      p_shouldUnregister = JUndefined, p_defaultValue = JUndefined, p_disabled = JUndefined,
      render = demo_render k\<rparr>"

text \<open>
  An update of the small form: the field's value and disabled flag, its touched flag, the
  identity of the render prop, and what happened to the world before the pass.
\<close>

definition demo_update :: "jsval \<Rightarrow> jsval \<Rightarrow> bool \<Rightarrow> nat \<Rightarrow> (demo_world \<Rightarrow> demo_world) \<Rightarrow> demo_world update" where
  "demo_update v d t k env =
     \<lparr>u_env = env, u_hook = demo_hook v d t, u_props = demo_props (JRef 1) k\<rparr>"

text \<open>Writing to the object at address 7 in place.\<close>

definition write_object7 :: "demo_world \<Rightarrow> demo_world" where
  "write_object7 w = w\<lparr>heap := [(7, JStr ''b'')]\<rparr>"

text \<open>The small form after its first render: value \<open>""\<close>, not disabled, render prop 200.\<close>

definition demo_mounted :: "demo_world runtime" where
  "demo_mounted =
     \<lparr>memo = Some (JRef 1000, [JStr '''', JBool False, JRef 200]),
      invocations = [(200, demo_field (JStr '''') (JBool False))],
      world = demo_world0\<lparr>elements := 1,
                seen := [(''test'', JStr '''', JBool False, 100, 101, 102)]\<rparr>\<rparr>"

section \<open>Basic facts\<close>

lemma object_is_eq: "object_is x y = (x = y)"
  by (cases x; cases y; simp)

lemma areHookInputsEqual_three [simp]:
  "areHookInputsEqual [a, b, c] [a', b', c'] = (a = a' \<and> b = b' \<and> c = c')"
  by (simp add: object_is_eq)

declare areHookInputsEqual.simps [simp del]

lemma OptimizedController_throw:
  "useController props = Inl e \<Longrightarrow> OptimizedController useController props s = (Inl e, s)"
  by (simp add: OptimizedController_def)

lemma OptimizedController_return:
  assumes "useController props = Inr r"
  shows "OptimizedController useController props s =
     (case memo s of
        None \<Rightarrow> recomputed props (field r) s
      | Some (n, ds) \<Rightarrow>
          if areHookInputsEqual [fvalue (field r), disabled (field r), JRef (fn_ref (render props))] ds
          then (Inr n, s) else recomputed props (field r) s)"
  using assms
  by (auto simp: OptimizedController_def useMemo_def call_render_def recomputed_def Let_def
      split_def split: option.splits sum.splits)

lemma rerender_return:
  assumes "field_of u = Some f"
  shows "rerender u s =
     (case memo s of
        None \<Rightarrow> recomputed (u_props u) f (s\<lparr>world := u_env u (world s)\<rparr>)
      | Some (n, ds) \<Rightarrow>
          if areHookInputsEqual [fvalue f, disabled f, JRef (render_of u)] ds
          then (Inr n, s\<lparr>world := u_env u (world s)\<rparr>)
          else recomputed (u_props u) f (s\<lparr>world := u_env u (world s)\<rparr>))"
proof -
  from assms obtain r where r: "u_hook u (u_props u) = Inr r" and f: "f = field r"
    by (auto simp: field_of_def split: sum.splits)
  have "OptimizedController (u_hook u) (u_props u) t =
     (case memo t of
        None \<Rightarrow> recomputed (u_props u) (field r) t
      | Some (n, ds) \<Rightarrow>
          if areHookInputsEqual [fvalue (field r), disabled (field r), JRef (fn_ref (render (u_props u)))] ds
          then (Inr n, t) else recomputed (u_props u) (field r) t)" for t
    using r by (rule OptimizedController_return)
  then show ?thesis
    by (simp add: rerender_def f render_of_def split: option.splits)
qed

lemma rerender_throw:
  assumes "field_of u = None"
  shows "\<exists>e. rerender u s = (Inl e, s\<lparr>world := u_env u (world s)\<rparr>)"
proof -
  from assms obtain e where "u_hook u (u_props u) = Inl e"
    by (auto simp: field_of_def split: sum.splits)
  then show ?thesis
    by (simp add: rerender_def OptimizedController_throw)
qed

lemma recomputed_parts:
  "fst (recomputed props f s) = fst (fn_call (render props) f (world s))"
  "invocations (snd (recomputed props f s)) = invocations s @ [(fn_ref (render props), f)]"
  "world (snd (recomputed props f s)) = snd (fn_call (render props) f (world s))"
  "memo (snd (recomputed props f s)) =
     (case fst (fn_call (render props) f (world s)) of
        Inl e \<Rightarrow> memo s
      | Inr node \<Rightarrow> Some (node, [fvalue f, disabled f, JRef (fn_ref (render props))]))"
  by (simp_all add: recomputed_def split_def Let_def split: sum.splits)

lemma invoked_between_recomputed [simp]:
  "invoked_between s (snd (recomputed props f (s\<lparr>world := w\<rparr>))) = [(fn_ref (render props), f)]"
  by (simp add: invoked_between_def recomputed_parts)

lemma invoked_between_world [simp]: "invoked_between s (s\<lparr>world := w\<rparr>) = []"
  by (simp add: invoked_between_def)

lemma invoked_between_self [simp]: "invoked_between s s = []"
  by (simp add: invoked_between_def)

lemma invoked_between_recomputed_here [simp]:
  "invoked_between s (snd (recomputed props f s)) = [(fn_ref (render props), f)]"
  by (simp add: invoked_between_def recomputed_parts)

lemma OptimizedController_invoked:
  assumes "useController props = Inr r"
  shows "set (invoked_between s (snd (OptimizedController useController props s)))
           \<subseteq> {(fn_ref (render props), field r)}"
  by (simp add: OptimizedController_return [where useController = useController, OF assms]
      split: option.splits)

lemma cell_shaped_mount: "cell_shaped (mount w)"
  by (simp add: cell_shaped_def mount_def)

lemma cell_shaped_world: "cell_shaped (s\<lparr>world := w\<rparr>) = cell_shaped s"
  by (simp add: cell_shaped_def)

lemma cell_shaped_recomputed: "cell_shaped s \<Longrightarrow> cell_shaped (snd (recomputed props f s))"
  by (simp add: cell_shaped_def recomputed_parts split: sum.splits)

lemma cell_shaped_rerender:
  assumes "cell_shaped s"
  shows "cell_shaped (snd (rerender u s))"
proof (cases "field_of u")
  case None
  from rerender_throw [OF None, of s] assms show ?thesis
    by (auto simp: cell_shaped_world)
next
  case (Some f)
  from assms have "cell_shaped (s\<lparr>world := u_env u (world s)\<rparr>)"
    by (simp add: cell_shaped_world)
  then show ?thesis
    by (auto simp: rerender_return [OF Some] cell_shaped_recomputed split: option.splits)
qed

lemma cell_shaped_run: "cell_shaped s \<Longrightarrow> cell_shaped (snd (run us s))"
proof (induction us arbitrary: s)
  case Nil
  then show ?case by simp
next
  case (Cons u us)
  from Cons.prems have "cell_shaped (snd (rerender u s))"
    by (rule cell_shaped_rerender)
  with Cons.IH [of "snd (rerender u s)"] show ?case
    by (auto split: prod.splits sum.splits)
qed

lemma cell_shaped_history: "cell_shaped (snd (run history (mount w)))"
  by (simp add: cell_shaped_run cell_shaped_mount)

text \<open>After a pass that returned a node, the cell holds it with this pass's dependencies.\<close>

lemma after_pass:
  assumes "cell_shaped s" and "field_of u = Some f" and "rerender u s = (Inr n, s')"
  shows "memo s' = Some (n, [fvalue f, disabled f, JRef (render_of u)])"
proof -
  let ?t = "s\<lparr>world := u_env u (world s)\<rparr>"
  let ?deps = "[fvalue f, disabled f, JRef (render_of u)]"
  have new: "memo s' = Some (n, ?deps)" if r: "recomputed (u_props u) f ?t = (Inr n, s')"
  proof -
    from r have "fst (fn_call (render (u_props u)) f (world ?t)) = Inr n"
      using recomputed_parts(1) [of "u_props u" f ?t] by simp
    with r show ?thesis
      using recomputed_parts(4) [of "u_props u" f ?t] by (simp add: render_of_def)
  qed
  show ?thesis
  proof (cases "memo s")
    case None
    with assms(2,3) have "recomputed (u_props u) f ?t = (Inr n, s')"
      by (simp add: rerender_return)
    then show ?thesis by (rule new)
  next
    case (Some c)
    obtain m ds where c: "c = (m, ds)" by (cases c)
    show ?thesis
    proof (cases "ds = ?deps")
      case True
      with Some c assms(2,3) have "n = m" and "s' = ?t"
        by (simp_all add: rerender_return)
      with Some c True show ?thesis by simp
    next
      case False
      from assms(1) Some c obtain a b k where ds: "ds = [a, b, k]"
        by (auto simp: cell_shaped_def length_Suc_conv numeral_3_eq_3)
      with False Some c assms(2,3) have "recomputed (u_props u) f ?t = (Inr n, s')"
        by (auto simp: rerender_return)
      then show ?thesis by (rule new)
    qed
  qed
qed

text \<open>The pass after a pass that returned: the cell is hit or the render function is called.\<close>

lemma second_pass:
  assumes "cell_shaped s0" and "rerender u1 s0 = (Inr n1, s1)"
      and "field_of u1 = Some f1" and "field_of u2 = Some f2"
  shows "rerender u2 s1 =
     (if same_pair f1 f2 \<and> render_of u2 = render_of u1
      then (Inr n1, s1\<lparr>world := u_env u2 (world s1)\<rparr>)
      else recomputed (u_props u2) f2 (s1\<lparr>world := u_env u2 (world s1)\<rparr>))"
proof -
  from after_pass [OF assms(1,3,2)]
  have "memo s1 = Some (n1, [fvalue f1, disabled f1, JRef (render_of u1)])" .
  then show ?thesis
    by (simp add: rerender_return [OF assms(4)] object_is_eq same_pair_def)
qed

text \<open>A run in which no dependency changes leaves the cell alone and calls nothing.\<close>

lemma quiet_run:
  assumes "memo s = Some (n, [fvalue f, disabled f, JRef k])"
      and "pair_unchanged_from f us" and "render_unchanged_from k us"
  shows "fst (run us s) = replicate (length us) (Inr n)
       \<and> invocations (snd (run us s)) = invocations s
       \<and> memo (snd (run us s)) = memo s"
  using assms
proof (induction us arbitrary: s f)
  case Nil
  then show ?case by simp
next
  case (Cons u us)
  from Cons.prems(2) obtain g where g: "field_of u = Some g" and fg: "same_pair f g"
    and rest: "pair_unchanged_from g us"
    by (auto split: option.splits)
  from Cons.prems(3) have k: "render_of u = k" and rest': "render_unchanged_from k us"
    by auto
  let ?t = "s\<lparr>world := u_env u (world s)\<rparr>"
  from fg have eq: "fvalue g = fvalue f" "disabled g = disabled f"
    by (simp_all add: same_pair_def object_is_eq)
  have step: "rerender u s = (Inr n, ?t)"
    using Cons.prems(1) k eq by (simp add: rerender_return [OF g] object_is_eq)
  have "memo ?t = Some (n, [fvalue g, disabled g, JRef k])"
    using Cons.prems(1) eq by simp
  from Cons.IH [OF this rest rest'] step Cons.prems(1) show ?case
    by (simp add: split_def)
qed

text \<open>No call follows a call with the same dependencies, as long as the run goes.\<close>

lemma cell_tracks_log_mount: "cell_tracks_log (mount w)"
  by (simp add: cell_tracks_log_def mount_def)

lemma cell_tracks_log_world: "cell_tracks_log (s\<lparr>world := w\<rparr>) = cell_tracks_log s"
  by (simp add: cell_tracks_log_def cong: option.case_cong)

lemma recomputed_log:
  assumes "cell_tracks_log s"
      and "\<And>n ds. memo s = Some (n, ds) \<Longrightarrow> ds \<noteq> [fvalue f, disabled f, JRef (fn_ref (render props))]"
  shows "distinct_adj (map deps_of (invocations (snd (recomputed props f s))))"
    and "fst (recomputed props f s) = Inr node \<Longrightarrow> cell_tracks_log (snd (recomputed props f s))"
proof -
  have adj: "distinct_adj (map deps_of (invocations s @ [(fn_ref (render props), f)]))"
  proof (cases "memo s")
    case None
    with assms(1) show ?thesis
      by (simp add: cell_tracks_log_def)
  next
    case (Some c)
    obtain n ds where c: "c = (n, ds)" by (cases c)
    from assms(1) Some c have log: "invocations s \<noteq> []"
      and ds: "ds = deps_of (last (invocations s))"
      and old: "distinct_adj (map deps_of (invocations s))"
      by (simp_all add: cell_tracks_log_def)
    from assms(2) Some c ds
    have "deps_of (last (invocations s)) \<noteq> deps_of (fn_ref (render props), f)"
      by (simp add: deps_of_def)
    with log old show ?thesis
      by (simp add: distinct_adj_append_iff last_map)
  qed
  then show "distinct_adj (map deps_of (invocations (snd (recomputed props f s))))"
    by (simp add: recomputed_parts)
  show "cell_tracks_log (snd (recomputed props f s))" if "fst (recomputed props f s) = Inr node"
    using that adj
    by (simp add: cell_tracks_log_def recomputed_parts deps_of_def)
qed

lemma rerender_log:
  assumes "cell_tracks_log s"
  shows "distinct_adj (map deps_of (invocations (snd (rerender u s))))"
    and "fst (rerender u s) = Inr node \<Longrightarrow> cell_tracks_log (snd (rerender u s))"
proof -
  let ?t = "s\<lparr>world := u_env u (world s)\<rparr>"
  have t: "cell_tracks_log ?t"
    using assms by (simp add: cell_tracks_log_world)
  have "distinct_adj (map deps_of (invocations (snd (rerender u s))))
      \<and> (fst (rerender u s) = Inr node \<longrightarrow> cell_tracks_log (snd (rerender u s)))"
  proof (cases "field_of u")
    case None
    from rerender_throw [OF None, of s] t show ?thesis
      by (auto simp: cell_tracks_log_def)
  next
    case (Some f)
    show ?thesis
    proof (cases "\<exists>n. memo s = Some (n, [fvalue f, disabled f, JRef (render_of u)])")
      case True
      then have "snd (rerender u s) = ?t"
        by (auto simp: rerender_return [OF Some])
      with t show ?thesis by (simp add: cell_tracks_log_def)
    next
      case False
      from assms have "cell_shaped s"
        by (auto simp: cell_tracks_log_def cell_shaped_def deps_of_def split: option.splits)
      then have shape: "memo s = Some (n, ds) \<Longrightarrow> \<exists>a b k. ds = [a, b, k]" for n ds
        by (auto simp: cell_shaped_def length_Suc_conv numeral_3_eq_3)
      have r: "rerender u s = recomputed (u_props u) f ?t"
      proof (cases "memo s")
        case None
        then show ?thesis by (simp add: rerender_return [OF Some])
      next
        case (Some c)
        obtain n ds where c: "c = (n, ds)" by (cases c)
        from shape Some c obtain a b k where "ds = [a, b, k]" by blast
        with False Some c show ?thesis
          by (auto simp: rerender_return [OF \<open>field_of u = Some f\<close>])
      qed
      have miss: "memo ?t = Some (n, ds) \<Longrightarrow> ds \<noteq> [fvalue f, disabled f, JRef (fn_ref (render (u_props u)))]"
        for n ds
        using False by (auto simp: render_of_def)
      from recomputed_log [OF t miss] r show ?thesis
        by simp
    qed
  qed
  then show "distinct_adj (map deps_of (invocations (snd (rerender u s))))"
    and "fst (rerender u s) = Inr node \<Longrightarrow> cell_tracks_log (snd (rerender u s))"
    by simp_all
qed

lemma run_log:
  "cell_tracks_log s \<Longrightarrow> distinct_adj (map deps_of (invocations (snd (run us s))))"
proof (induction us arbitrary: s)
  case Nil
  then show ?case by (simp add: cell_tracks_log_def)
next
  case (Cons u us)
  show ?case
  proof (cases "fst (rerender u s)")
    case (Inl e)
    with rerender_log(1) [OF Cons.prems, of u] show ?thesis
      by (simp add: split_def)
  next
    case (Inr node)
    with rerender_log(2) [OF Cons.prems, of u node]
    have "cell_tracks_log (snd (rerender u s))" by simp
    from Cons.IH [OF this] Inr show ?thesis
      by (simp add: split_def Let_def)
  qed
qed

lemma first_pass:
  assumes "field_of u = Some f"
  shows "rerender u (mount w) = recomputed (u_props u) f ((mount w)\<lparr>world := u_env u w\<rparr>)"
  by (simp add: rerender_return [OF assms] mount_def)

lemmas demo_eval =
  demo_update_def demo_hook_def demo_props_def demo_render_def demo_field_def
  demo_world0_def demo_mounted_def rerender_def OptimizedController_def
  useMemo_def call_render_def mount_def field_of_def render_of_def same_pair_def
  invoked_between_def Let_def

section \<open>The view handed to the render function\<close>





text \<open>
  C9. The render function receives the field and nothing else, and the component reads
  nothing of what \<open>useController\<close> returns but the field: two answers of the provider with
  the same field and any \<open>fieldState\<close> and \<open>formState\<close> (touched, dirty, validation
  error) give the same pass, and every call made has the field as its argument.
\<close>

theorem only_field_is_read:
  assumes "useController props = Inr r"
      and "useController' props = Inr r'"
      and "field r' = field r"
  shows "OptimizedController useController' props s = OptimizedController useController props s
       \<and> set (invoked_between s (snd (OptimizedController useController props s)))
           \<subseteq> {(fn_ref (render props), field r)}"
proof
  show "OptimizedController useController' props s = OptimizedController useController props s"
    by (simp only: OptimizedController_return [where useController = useController, OF assms(1)]
        OptimizedController_return [where useController = useController', OF assms(2)] assms(3))
  show "set (invoked_between s (snd (OptimizedController useController props s)))
          \<subseteq> {(fn_ref (render props), field r)}"
    using assms(1) by (rule OptimizedController_invoked)
qed

text \<open>The same pass of the small form with the field untouched and with it touched.\<close>

theorem only_field_is_read_witness:
  "isTouched (fieldState (projr (demo_hook (JStr '''') (JBool False) True (demo_props (JRef 1) 200))))
     \<noteq> isTouched (fieldState (projr (demo_hook (JStr '''') (JBool False) False (demo_props (JRef 1) 200))))
   \<and> field (projr (demo_hook (JStr '''') (JBool False) True (demo_props (JRef 1) 200)))
       = field (projr (demo_hook (JStr '''') (JBool False) False (demo_props (JRef 1) 200)))
   \<and> OptimizedController (demo_hook (JStr '''') (JBool False) True) (demo_props (JRef 1) 200)
       (mount demo_world0)
     = OptimizedController (demo_hook (JStr '''') (JBool False) False) (demo_props (JRef 1) 200)
       (mount demo_world0)"
proof -
  let ?props = "demo_props (JRef 1) 200"
  have a: "demo_hook (JStr '''') (JBool False) False ?props
             = Inr (projr (demo_hook (JStr '''') (JBool False) False ?props))"
    by (simp add: demo_hook_def demo_props_def)
  have b: "demo_hook (JStr '''') (JBool False) True ?props
             = Inr (projr (demo_hook (JStr '''') (JBool False) True ?props))"
    by (simp add: demo_hook_def demo_props_def)
  have c: "field (projr (demo_hook (JStr '''') (JBool False) True ?props))
             = field (projr (demo_hook (JStr '''') (JBool False) False ?props))"
    by (simp add: demo_hook_def demo_props_def)
  have d: "isTouched (fieldState (projr (demo_hook (JStr '''') (JBool False) True ?props)))
             \<noteq> isTouched (fieldState (projr (demo_hook (JStr '''') (JBool False) False ?props)))"
    by (simp add: demo_hook_def demo_props_def)
  from only_field_is_read
    [where useController = "demo_hook (JStr '''') (JBool False) False"
       and useController' = "demo_hook (JStr '''') (JBool False) True", OF a b c,
     of "mount demo_world0"] c d
  show ?thesis
    by simp
qed

section \<open>Errors\<close>




section \<open>Memoization on value, disabled and render\<close>

text \<open>
  C1 (amended). After a pass that returned a node (\<open>n1\<close>) and extracted a pair (\<open>f1\<close>),
  the next pass compares its own pair (\<open>f2\<close>) with it by \<open>Object.is\<close>. If the pair is
  unchanged and the render prop is the same function object, the pass returns the node of
  the pass before and computes nothing: no call, the memo cell as it was. If the pair
  changed, the pass calls the render function with the new view and caches the result with
  the new dependencies. A value that is an object counts as unchanged when it is the same
  reference, whatever was written into the object since (\<open>u_env u2\<close> is arbitrary).
\<close>

theorem compare_with_previous_pair:
  assumes "rerender u1 (snd (run history (mount w0))) = (Inr n1, s1)"
      and "field_of u1 = Some f1"
      and "field_of u2 = Some f2"
  shows "(same_pair f1 f2 \<and> render_of u2 = render_of u1
            \<longrightarrow> rerender u2 s1 = (Inr n1, s1\<lparr>world := u_env u2 (world s1)\<rparr>))
       \<and> (\<not> same_pair f1 f2
            \<longrightarrow> rerender u2 s1 = recomputed (u_props u2) f2 (s1\<lparr>world := u_env u2 (world s1)\<rparr>))
       \<and> (fvalue f1 = JRef a \<and> fvalue f2 = JRef a \<and> object_is (disabled f2) (disabled f1)
            \<and> render_of u2 = render_of u1
            \<longrightarrow> rerender u2 s1 = (Inr n1, s1\<lparr>world := u_env u2 (world s1)\<rparr>))"
  using second_pass [OF cell_shaped_history assms]
  by (simp add: same_pair_def)

text \<open>
  The small form with the object at address 7 as its value: the object is written in place
  before the second pass, which returns the element of the first pass and calls nothing;
  a pass with the value \<open>"abc"\<close> calls render with the new view and caches element 1001.
\<close>

theorem compare_with_previous_pair_witness:
  "field_of (demo_update (JRef 7) (JBool False) False 200 id) = Some (demo_field (JRef 7) (JBool False))
   \<and> field_of (demo_update (JRef 7) (JBool False) False 200 write_object7)
       = Some (demo_field (JRef 7) (JBool False))
   \<and> same_pair (demo_field (JRef 7) (JBool False)) (demo_field (JRef 7) (JBool False))
   \<and> rerender (demo_update (JRef 7) (JBool False) False 200 write_object7)
        (snd (rerender (demo_update (JRef 7) (JBool False) False 200 id) (mount demo_world0)))
      = (Inr (JRef 1000),
         \<lparr>memo = Some (JRef 1000, [JRef 7, JBool False, JRef 200]),
          invocations = [(200, demo_field (JRef 7) (JBool False))],
          world = \<lparr>received = [], touched = False, elements = 1, heap = [(7, JStr ''b'')],
                    seen = [(''test'', JRef 7, JBool False, 100, 101, 102)]\<rparr>\<rparr>)
   \<and> \<not> same_pair (demo_field (JRef 7) (JBool False)) (demo_field (JStr ''abc'') (JBool False))
   \<and> rerender (demo_update (JStr ''abc'') (JBool False) False 200 id)
        (snd (rerender (demo_update (JRef 7) (JBool False) False 200 id) (mount demo_world0)))
      = (Inr (JRef 1001),
         \<lparr>memo = Some (JRef 1001, [JStr ''abc'', JBool False, JRef 200]),
          invocations = [(200, demo_field (JRef 7) (JBool False)),
                         (200, demo_field (JStr ''abc'') (JBool False))],
          world = \<lparr>received = [], touched = False, elements = 2, heap = [(7, JStr ''a'')],
                    seen = [(''test'', JRef 7, JBool False, 100, 101, 102),
                            (''test'', JStr ''abc'', JBool False, 100, 101, 102)]\<rparr>\<rparr>)"
proof -
  let ?u1 = "demo_update (JRef 7) (JBool False) False 200 id"
  let ?u2 = "demo_update (JRef 7) (JBool False) False 200 write_object7"
  let ?u3 = "demo_update (JStr ''abc'') (JBool False) False 200 id"
  let ?f = "demo_field (JRef 7) (JBool False)"
  let ?g = "demo_field (JStr ''abc'') (JBool False)"
  let ?s1 = "snd (rerender ?u1 (mount demo_world0))"
  have p: "rerender ?u1 (snd (run [] (mount demo_world0))) = (Inr (JRef 1000), ?s1)"
    by (simp add: demo_eval)
  have f1: "field_of ?u1 = Some ?f" and f2: "field_of ?u2 = Some ?f" and f3: "field_of ?u3 = Some ?g"
    by (simp_all add: demo_eval)
  have same: "same_pair ?f ?f" and diff: "\<not> same_pair ?f ?g"
    by (simp_all add: demo_eval)
  have r: "render_of ?u2 = render_of ?u1"
    by (simp add: demo_eval)
  from compare_with_previous_pair [OF p f1 f2, of 7] same r
  have hit: "rerender ?u2 ?s1 = (Inr (JRef 1000), ?s1\<lparr>world := u_env ?u2 (world ?s1)\<rparr>)"
    by simp
  from compare_with_previous_pair [OF p f1 f3, of 7] diff
  have miss: "rerender ?u3 ?s1 = recomputed (u_props ?u3) ?g (?s1\<lparr>world := u_env ?u3 (world ?s1)\<rparr>)"
    by simp
  have e1: "(Inr (JRef 1000), ?s1\<lparr>world := u_env ?u2 (world ?s1)\<rparr>)
       = (Inr (JRef 1000),
         \<lparr>memo = Some (JRef 1000, [JRef 7, JBool False, JRef 200]),
          invocations = [(200, ?f)],
          world = \<lparr>received = [], touched = False, elements = 1, heap = [(7, JStr ''b'')],
                    seen = [(''test'', JRef 7, JBool False, 100, 101, 102)]\<rparr>\<rparr>)"
    by (simp add: demo_eval write_object7_def)
  have e2: "recomputed (u_props ?u3) ?g (?s1\<lparr>world := u_env ?u3 (world ?s1)\<rparr>)
       = (Inr (JRef 1001),
         \<lparr>memo = Some (JRef 1001, [JStr ''abc'', JBool False, JRef 200]),
          invocations = [(200, ?f), (200, ?g)],
          world = \<lparr>received = [], touched = False, elements = 2, heap = [(7, JStr ''a'')],
                    seen = [(''test'', JRef 7, JBool False, 100, 101, 102),
                            (''test'', JStr ''abc'', JBool False, 100, 101, 102)]\<rparr>\<rparr>)"
    by (simp add: demo_eval recomputed_def)
  from f1 f2 same diff hit miss e1 e2 show ?thesis
    by (simp only:) simp
qed

text \<open>
  C1 as stated fails: the pair is unchanged from the first pass to the second, but the
  parent passes another function object as render prop (201 for 200), and the second pass
  calls it and returns a new element instead of the element of the first pass.
\<close>

theorem unchanged_pair_recomputed_counterexample:
  "rerender (demo_update (JStr '''') (JBool False) False 200 id) (mount demo_world0)
     = (Inr (JRef 1000), demo_mounted)
   \<and> field_of (demo_update (JStr '''') (JBool False) False 200 id)
       = Some (demo_field (JStr '''') (JBool False))
   \<and> field_of (demo_update (JStr '''') (JBool False) False 201 id)
       = Some (demo_field (JStr '''') (JBool False))
   \<and> same_pair (demo_field (JStr '''') (JBool False)) (demo_field (JStr '''') (JBool False))
   \<and> rerender (demo_update (JStr '''') (JBool False) False 201 id) demo_mounted
     = (Inr (JRef 1001),
        \<lparr>memo = Some (JRef 1001, [JStr '''', JBool False, JRef 201]),
         invocations = [(200, demo_field (JStr '''') (JBool False)),
                        (201, demo_field (JStr '''') (JBool False))],
         world = \<lparr>received = [], touched = False, elements = 2, heap = [(7, JStr ''a'')],
                   seen = [(''test'', JStr '''', JBool False, 100, 101, 102),
                           (''test'', JStr '''', JBool False, 100, 101, 102)]\<rparr>\<rparr>)"
  by (simp add: demo_eval)


text \<open>
  C3. In every update in which the value changes (the disabled flag may stay), and in every
  update in which the disabled flag changes (the value may stay), the pass recomputes: it
  makes exactly one call, of the current render function applied to the field of this
  update, which carries the new value and the new flag, and the outcome of that call is
  the outcome of the pass.
\<close>

theorem change_invokes_render_once:
  assumes "rerender u1 (snd (run history (mount w0))) = (Inr n1, s1)"
      and "field_of u1 = Some f1"
      and "field_of u2 = Some f2"
      and "rerender u2 s1 = (out2, s2)"
  shows "(\<not> object_is (fvalue f2) (fvalue f1) \<longrightarrow>
            (out2, s2) = recomputed (u_props u2) f2 (s1\<lparr>world := u_env u2 (world s1)\<rparr>)
          \<and> out2 = fst (fn_call (render (u_props u2)) f2 (u_env u2 (world s1)))
          \<and> world s2 = snd (fn_call (render (u_props u2)) f2 (u_env u2 (world s1)))
          \<and> invoked_between s1 s2 = [(render_of u2, f2)])
       \<and> (\<not> object_is (disabled f2) (disabled f1) \<longrightarrow>
            (out2, s2) = recomputed (u_props u2) f2 (s1\<lparr>world := u_env u2 (world s1)\<rparr>)
          \<and> out2 = fst (fn_call (render (u_props u2)) f2 (u_env u2 (world s1)))
          \<and> world s2 = snd (fn_call (render (u_props u2)) f2 (u_env u2 (world s1)))
          \<and> invoked_between s1 s2 = [(render_of u2, f2)])"
proof -
  let ?t = "s1\<lparr>world := u_env u2 (world s1)\<rparr>"
  have "(out2, s2) = recomputed (u_props u2) f2 ?t
          \<and> out2 = fst (fn_call (render (u_props u2)) f2 (u_env u2 (world s1)))
          \<and> world s2 = snd (fn_call (render (u_props u2)) f2 (u_env u2 (world s1)))
          \<and> invoked_between s1 s2 = [(render_of u2, f2)]"
    if "\<not> same_pair f1 f2"
  proof -
    from that second_pass [OF cell_shaped_history assms(1,2,3)]
    have "rerender u2 s1 = recomputed (u_props u2) f2 ?t"
      by simp
    with assms(4) have r: "(out2, s2) = recomputed (u_props u2) f2 ?t"
      by simp
    then have "out2 = fst (recomputed (u_props u2) f2 ?t)"
      and "s2 = snd (recomputed (u_props u2) f2 ?t)"
      by (metis fst_conv, metis snd_conv)
    with r show ?thesis
      by (simp add: recomputed_parts render_of_def)
  qed
  then show ?thesis by (auto simp: same_pair_def)
qed

text \<open>
  The small form after its first render: the value goes from \<open>""\<close> to \<open>"abc"\<close>, or the field
  becomes disabled. Either pass calls render function 200 once, and the function has seen
  the new value, or the new flag.
\<close>

theorem change_invokes_render_once_witness:
  "rerender (demo_update (JStr '''') (JBool False) False 200 id) (mount demo_world0)
     = (Inr (JRef 1000), demo_mounted)
   \<and> \<not> object_is (fvalue (demo_field (JStr ''abc'') (JBool False)))
                   (fvalue (demo_field (JStr '''') (JBool False)))
   \<and> rerender (demo_update (JStr ''abc'') (JBool False) False 200 id) demo_mounted
      = (Inr (JRef 1001),
         \<lparr>memo = Some (JRef 1001, [JStr ''abc'', JBool False, JRef 200]),
          invocations = [(200, demo_field (JStr '''') (JBool False)),
                         (200, demo_field (JStr ''abc'') (JBool False))],
          world = demo_world0\<lparr>elements := 2,
                    seen := [(''test'', JStr '''', JBool False, 100, 101, 102),
                             (''test'', JStr ''abc'', JBool False, 100, 101, 102)]\<rparr>\<rparr>)
   \<and> \<not> object_is (disabled (demo_field (JStr '''') (JBool True)))
                   (disabled (demo_field (JStr '''') (JBool False)))
   \<and> rerender (demo_update (JStr '''') (JBool True) False 200 id) demo_mounted
      = (Inr (JRef 1001),
         \<lparr>memo = Some (JRef 1001, [JStr '''', JBool True, JRef 200]),
          invocations = [(200, demo_field (JStr '''') (JBool False)),
                         (200, demo_field (JStr '''') (JBool True))],
          world = demo_world0\<lparr>elements := 2,
                    seen := [(''test'', JStr '''', JBool False, 100, 101, 102),
                             (''test'', JStr '''', JBool True, 100, 101, 102)]\<rparr>\<rparr>)"
proof -
  let ?u1 = "demo_update (JStr '''') (JBool False) False 200 id"
  let ?u2 = "demo_update (JStr ''abc'') (JBool False) False 200 id"
  let ?u3 = "demo_update (JStr '''') (JBool True) False 200 id"
  let ?f2 = "demo_field (JStr ''abc'') (JBool False)"
  let ?f3 = "demo_field (JStr '''') (JBool True)"
  have p: "rerender ?u1 (snd (run [] (mount demo_world0))) = (Inr (JRef 1000), demo_mounted)"
    by (simp add: demo_eval)
  have f1: "field_of ?u1 = Some (demo_field (JStr '''') (JBool False))"
    and f2: "field_of ?u2 = Some ?f2"
    and f3: "field_of ?u3 = Some ?f3"
    by (simp_all add: demo_eval)
  have q2: "rerender ?u2 demo_mounted = (fst (rerender ?u2 demo_mounted), snd (rerender ?u2 demo_mounted))"
    and q3: "rerender ?u3 demo_mounted = (fst (rerender ?u3 demo_mounted), snd (rerender ?u3 demo_mounted))"
    by simp_all
  have v: "\<not> object_is (fvalue ?f2) (fvalue (demo_field (JStr '''') (JBool False)))"
    and d: "\<not> object_is (disabled ?f3) (disabled (demo_field (JStr '''') (JBool False)))"
    by (simp_all add: demo_field_def)
  from change_invokes_render_once [OF p f1 f2 q2] v
  have r2: "rerender ?u2 demo_mounted
              = recomputed (u_props ?u2) ?f2 (demo_mounted\<lparr>world := u_env ?u2 (world demo_mounted)\<rparr>)"
    by simp
  from change_invokes_render_once [OF p f1 f3 q3] d
  have r3: "rerender ?u3 demo_mounted
              = recomputed (u_props ?u3) ?f3 (demo_mounted\<lparr>world := u_env ?u3 (world demo_mounted)\<rparr>)"
    by simp
  have e2: "recomputed (u_props ?u2) ?f2 (demo_mounted\<lparr>world := u_env ?u2 (world demo_mounted)\<rparr>)
      = (Inr (JRef 1001),
         \<lparr>memo = Some (JRef 1001, [JStr ''abc'', JBool False, JRef 200]),
          invocations = [(200, demo_field (JStr '''') (JBool False)), (200, ?f2)],
          world = demo_world0\<lparr>elements := 2,
                    seen := [(''test'', JStr '''', JBool False, 100, 101, 102),
                             (''test'', JStr ''abc'', JBool False, 100, 101, 102)]\<rparr>\<rparr>)"
    by (simp add: demo_eval recomputed_def)
  have e3: "recomputed (u_props ?u3) ?f3 (demo_mounted\<lparr>world := u_env ?u3 (world demo_mounted)\<rparr>)
      = (Inr (JRef 1001),
         \<lparr>memo = Some (JRef 1001, [JStr '''', JBool True, JRef 200]),
          invocations = [(200, demo_field (JStr '''') (JBool False)), (200, ?f3)],
          world = demo_world0\<lparr>elements := 2,
                    seen := [(''test'', JStr '''', JBool False, 100, 101, 102),
                             (''test'', JStr '''', JBool True, 100, 101, 102)]\<rparr>\<rparr>)"
    by (simp add: demo_eval recomputed_def)
  from p v d r2 r3 e2 e3 show ?thesis
    by (simp only:) simp
qed

text \<open>
  C4 (amended). In every update in which the value and the disabled flag are unchanged and
  the render prop is the same function object, whatever else changed (the touched, dirty
  and validation-error flags, the form state, the field's handlers and name), the render
  function is not called and the pass returns the node of the pass before.
\<close>

theorem other_attributes_do_not_invoke:
  assumes "rerender u1 (snd (run history (mount w0))) = (Inr n1, s1)"
      and "field_of u1 = Some f1"
      and "field_of u2 = Some f2"
      and "rerender u2 s1 = (out2, s2)"
      and "same_pair f1 f2"
      and "render_of u2 = render_of u1"
  shows "invoked_between s1 s2 = [] \<and> out2 = Inr n1"
  using second_pass [OF cell_shaped_history assms(1,2,3)] assms(4,5,6)
  by auto

text \<open>The provider of the small form reports the field as touched: nothing is called.\<close>

theorem other_attributes_do_not_invoke_witness:
  "rerender (demo_update (JStr '''') (JBool False) False 200 id) (mount demo_world0)
     = (Inr (JRef 1000), demo_mounted)
   \<and> isTouched (fieldState (projr (u_hook (demo_update (JStr '''') (JBool False) True 200 id)
                                      (demo_props (JRef 1) 200))))
   \<and> same_pair (demo_field (JStr '''') (JBool False)) (demo_field (JStr '''') (JBool False))
   \<and> invoked_between demo_mounted
        (snd (rerender (demo_update (JStr '''') (JBool False) True 200 id) demo_mounted)) = []
   \<and> fst (rerender (demo_update (JStr '''') (JBool False) True 200 id) demo_mounted)
        = Inr (JRef 1000)"
proof -
  let ?u1 = "demo_update (JStr '''') (JBool False) False 200 id"
  let ?u2 = "demo_update (JStr '''') (JBool False) True 200 id"
  let ?f = "demo_field (JStr '''') (JBool False)"
  have p: "rerender ?u1 (snd (run [] (mount demo_world0))) = (Inr (JRef 1000), demo_mounted)"
    by (simp add: demo_eval)
  have f1: "field_of ?u1 = Some ?f" and f2: "field_of ?u2 = Some ?f"
    by (simp_all add: demo_eval)
  have q: "rerender ?u2 demo_mounted = (fst (rerender ?u2 demo_mounted), snd (rerender ?u2 demo_mounted))"
    by simp
  have same: "same_pair ?f ?f" and k: "render_of ?u2 = render_of ?u1"
    by (simp_all add: demo_eval)
  have t: "isTouched (fieldState (projr (u_hook ?u2 (demo_props (JRef 1) 200))))"
    by (simp add: demo_eval)
  from other_attributes_do_not_invoke [OF p f1 f2 q same k] p same t show ?thesis
    by simp
qed

text \<open>
  C4 as stated fails: only the touched flag changes in the field state, but the parent
  renders too and passes a new function object as render prop, and the render function
  is called.
\<close>

theorem touched_update_invokes_counterexample:
  "rerender (demo_update (JStr '''') (JBool False) False 200 id) (mount demo_world0)
     = (Inr (JRef 1000), demo_mounted)
   \<and> field_of (demo_update (JStr '''') (JBool False) True 201 id)
       = field_of (demo_update (JStr '''') (JBool False) False 200 id)
   \<and> invoked_between demo_mounted
        (snd (rerender (demo_update (JStr '''') (JBool False) True 201 id) demo_mounted))
      = [(201, demo_field (JStr '''') (JBool False))]"
  by (simp add: demo_eval)

text \<open>
  C6. The render function is one of the three dependencies. In an update with the value
  and the disabled flag unchanged, the render function is left uncalled exactly when the
  render prop is the same function object as in the pass before, and then the node of the
  pass before is returned; when the parent passes another function object, that function
  is called with the current field and its result is returned and cached.
\<close>

theorem render_identity_is_dependency:
  assumes "rerender u1 (snd (run history (mount w0))) = (Inr n1, s1)"
      and "field_of u1 = Some f1"
      and "field_of u2 = Some f2"
      and "rerender u2 s1 = (out2, s2)"
      and "same_pair f1 f2"
  shows "((invoked_between s1 s2 = []) = (render_of u2 = render_of u1))
       \<and> (render_of u2 = render_of u1 \<longrightarrow> out2 = Inr n1)
       \<and> (render_of u2 \<noteq> render_of u1 \<longrightarrow>
            (out2, s2) = recomputed (u_props u2) f2 (s1\<lparr>world := u_env u2 (world s1)\<rparr>))"
proof (cases "render_of u2 = render_of u1")
  case True
  with second_pass [OF cell_shaped_history assms(1,2,3)] assms(4,5) show ?thesis
    by auto
next
  case False
  with second_pass [OF cell_shaped_history assms(1,2,3)] assms(4,5)
  have r: "(out2, s2) = recomputed (u_props u2) f2 (s1\<lparr>world := u_env u2 (world s1)\<rparr>)"
    by simp
  then have "s2 = snd (recomputed (u_props u2) f2 (s1\<lparr>world := u_env u2 (world s1)\<rparr>))"
    by (metis snd_conv)
  then have "invoked_between s1 s2 \<noteq> []"
    by simp
  with False r show ?thesis by simp
qed

text \<open>
  The small form rendered again with the same value and flag and with render prop 201
  for 200: function 201 is called and the pass returns a new element, 1001. With render
  prop 200 again, nothing is called and element 1000 is returned.
\<close>

theorem render_identity_is_dependency_witness:
  "rerender (demo_update (JStr '''') (JBool False) False 200 id) (mount demo_world0)
     = (Inr (JRef 1000), demo_mounted)
   \<and> same_pair (demo_field (JStr '''') (JBool False)) (demo_field (JStr '''') (JBool False))
   \<and> render_of (demo_update (JStr '''') (JBool False) False 201 id)
       \<noteq> render_of (demo_update (JStr '''') (JBool False) False 200 id)
   \<and> invoked_between demo_mounted
        (snd (rerender (demo_update (JStr '''') (JBool False) False 201 id) demo_mounted)) \<noteq> []
   \<and> rerender (demo_update (JStr '''') (JBool False) False 201 id) demo_mounted
      = (Inr (JRef 1001),
         \<lparr>memo = Some (JRef 1001, [JStr '''', JBool False, JRef 201]),
          invocations = [(200, demo_field (JStr '''') (JBool False)),
                         (201, demo_field (JStr '''') (JBool False))],
          world = demo_world0\<lparr>elements := 2,
                    seen := [(''test'', JStr '''', JBool False, 100, 101, 102),
                             (''test'', JStr '''', JBool False, 100, 101, 102)]\<rparr>\<rparr>)
   \<and> render_of (demo_update (JStr '''') (JBool False) True 200 id)
       = render_of (demo_update (JStr '''') (JBool False) False 200 id)
   \<and> invoked_between demo_mounted
        (snd (rerender (demo_update (JStr '''') (JBool False) True 200 id) demo_mounted)) = []
   \<and> fst (rerender (demo_update (JStr '''') (JBool False) True 200 id) demo_mounted)
       = Inr (JRef 1000)"
proof -
  let ?u1 = "demo_update (JStr '''') (JBool False) False 200 id"
  let ?u2 = "demo_update (JStr '''') (JBool False) False 201 id"
  let ?u3 = "demo_update (JStr '''') (JBool False) True 200 id"
  let ?f = "demo_field (JStr '''') (JBool False)"
  have p: "rerender ?u1 (snd (run [] (mount demo_world0))) = (Inr (JRef 1000), demo_mounted)"
    by (simp add: demo_eval)
  have f1: "field_of ?u1 = Some ?f" and f2: "field_of ?u2 = Some ?f" and f3: "field_of ?u3 = Some ?f"
    by (simp_all add: demo_eval)
  have q: "rerender ?u2 demo_mounted = (fst (rerender ?u2 demo_mounted), snd (rerender ?u2 demo_mounted))"
    and q3: "rerender ?u3 demo_mounted = (fst (rerender ?u3 demo_mounted), snd (rerender ?u3 demo_mounted))"
    by simp_all
  have same: "same_pair ?f ?f" and k: "render_of ?u2 \<noteq> render_of ?u1"
    and k3: "render_of ?u3 = render_of ?u1"
    by (simp_all add: demo_eval)
  note stable = render_identity_is_dependency [OF p f1 f3 q3 same]
  have e: "recomputed (u_props ?u2) ?f (demo_mounted\<lparr>world := u_env ?u2 (world demo_mounted)\<rparr>)
      = (Inr (JRef 1001),
         \<lparr>memo = Some (JRef 1001, [JStr '''', JBool False, JRef 201]),
          invocations = [(200, ?f), (201, ?f)],
          world = demo_world0\<lparr>elements := 2,
                    seen := [(''test'', JStr '''', JBool False, 100, 101, 102),
                             (''test'', JStr '''', JBool False, 100, 101, 102)]\<rparr>\<rparr>)"
    by (simp add: demo_eval recomputed_def)
  from render_identity_is_dependency [OF p f1 f2 q same] stable p same k k3 e show ?thesis
    by (simp add: invoked_between_def demo_mounted_def)
qed


section \<open>Runs of updates\<close>

text \<open>
  C2 (amended). In every sequence of updates from the mount in which neither the value nor
  the disabled flag changes between two consecutive updates and the render prop stays the
  same function object, the render function is called at most once. In any sequence of
  updates, no call follows a call with an equal pair and the same render function.
\<close>

theorem unchanged_pair_invoked_at_most_once:
  "(pair_unchanged us \<and> render_unchanged us
      \<longrightarrow> length (invocations (snd (run us (mount w)))) \<le> 1)
   \<and> distinct_adj (map deps_of (invocations (snd (run us (mount w)))))"
proof
  show "pair_unchanged us \<and> render_unchanged us
      \<longrightarrow> length (invocations (snd (run us (mount w)))) \<le> 1"
  proof (cases us)
    case Nil
    then show ?thesis by (simp add: mount_def)
  next
    case (Cons u rest)
    show ?thesis
    proof
      assume quiet: "pair_unchanged us \<and> render_unchanged us"
      with Cons obtain f where f: "field_of u = Some f" and p: "pair_unchanged_from f rest"
        and k: "render_unchanged_from (render_of u) rest"
        by (auto split: option.splits)
      let ?first = "recomputed (u_props u) f ((mount w)\<lparr>world := u_env u w\<rparr>)"
      have step: "rerender u (mount w) = ?first"
        by (rule first_pass [OF f])
      have one: "length (invocations (snd ?first)) = 1"
        by (simp add: recomputed_parts mount_def)
      show "length (invocations (snd (run us (mount w)))) \<le> 1"
      proof (cases "fst ?first")
        case (Inl e)
        with Cons step one show ?thesis
          by (simp add: split_def)
      next
        case (Inr n)
        then have "fst (fn_call (render (u_props u)) f (world ((mount w)\<lparr>world := u_env u w\<rparr>))) = Inr n"
          by (simp add: recomputed_parts)
        then have m: "memo (snd ?first) = Some (n, [fvalue f, disabled f, JRef (render_of u)])"
          by (simp add: recomputed_parts render_of_def)
        have "invocations (snd (run rest (snd ?first))) = invocations (snd ?first)"
          using quiet_run [OF m p k] by simp
        with Cons step one Inr show ?thesis
          by (simp add: split_def Let_def)
      qed
    qed
  qed
  show "distinct_adj (map deps_of (invocations (snd (run us (mount w)))))"
    by (rule run_log [OF cell_tracks_log_mount])
qed

text \<open>
  Three updates of the small form with the same value and flag and the same render prop;
  the second reports the field as touched. One call is made in all.
\<close>

theorem unchanged_pair_invoked_at_most_once_witness:
  "pair_unchanged [demo_update (JStr '''') (JBool False) False 200 id,
                   demo_update (JStr '''') (JBool False) True 200 id,
                   demo_update (JStr '''') (JBool False) True 200 id]
   \<and> render_unchanged [demo_update (JStr '''') (JBool False) False 200 id,
                        demo_update (JStr '''') (JBool False) True 200 id,
                        demo_update (JStr '''') (JBool False) True 200 id]
   \<and> length (invocations (snd (run [demo_update (JStr '''') (JBool False) False 200 id,
                                      demo_update (JStr '''') (JBool False) True 200 id,
                                      demo_update (JStr '''') (JBool False) True 200 id]
                                     (mount demo_world0)))) \<le> 1"
proof -
  let ?us = "[demo_update (JStr '''') (JBool False) False 200 id,
              demo_update (JStr '''') (JBool False) True 200 id,
              demo_update (JStr '''') (JBool False) True 200 id]"
  have p: "pair_unchanged ?us" and k: "render_unchanged ?us"
    by (simp_all add: demo_eval)
  from unchanged_pair_invoked_at_most_once [of ?us demo_world0] p k show ?thesis
    by blast
qed

text \<open>
  C2 as stated fails: two updates with the same value and flag, the second with another
  function object as render prop. The render function is called in both passes, twice in
  a row with an equal pair.
\<close>

theorem unchanged_pair_invoked_twice_counterexample:
  "pair_unchanged [demo_update (JStr '''') (JBool False) False 200 id,
                   demo_update (JStr '''') (JBool False) False 201 id]
   \<and> map (\<lambda>c. (fvalue (snd c), disabled (snd c)))
        (invocations (snd (run [demo_update (JStr '''') (JBool False) False 200 id,
                                demo_update (JStr '''') (JBool False) False 201 id]
                               (mount demo_world0))))
      = [(JStr '''', JBool False), (JStr '''', JBool False)]"
  by (simp add: demo_eval)

text \<open>
  C5 (amended). Across consecutive renders in which neither the value nor the disabled
  flag changes and the render prop stays the same function object, every render returns
  the same node, the one the render before them returned.
\<close>

theorem output_referentially_stable:
  assumes "rerender u1 (snd (run history (mount w0))) = (Inr n, s1)"
      and "field_of u1 = Some f1"
      and "pair_unchanged_from f1 us"
      and "render_unchanged_from (render_of u1) us"
  shows "fst (run us s1) = replicate (length us) (Inr n)
       \<and> (\<forall>out \<in> set (fst (run us s1)). \<exists>m. out = Inr m \<and> object_is m n)"
proof -
  from after_pass [OF cell_shaped_history assms(2,1)]
  have m: "memo s1 = Some (n, [fvalue f1, disabled f1, JRef (render_of u1)])" .
  from quiet_run [OF m assms(3,4)] have "fst (run us s1) = replicate (length us) (Inr n)"
    by simp
  then show ?thesis by (auto simp: object_is_eq)
qed

text \<open>
  The small form after its first render, rendered twice more with the field touched:
  both renders return element 1000, the element of the first render.
\<close>

theorem output_referentially_stable_witness:
  "rerender (demo_update (JStr '''') (JBool False) False 200 id) (mount demo_world0)
     = (Inr (JRef 1000), demo_mounted)
   \<and> pair_unchanged_from (demo_field (JStr '''') (JBool False))
        [demo_update (JStr '''') (JBool False) True 200 id,
         demo_update (JStr '''') (JBool False) True 200 id]
   \<and> render_unchanged_from 200
        [demo_update (JStr '''') (JBool False) True 200 id,
         demo_update (JStr '''') (JBool False) True 200 id]
   \<and> fst (run [demo_update (JStr '''') (JBool False) True 200 id,
                demo_update (JStr '''') (JBool False) True 200 id] demo_mounted)
      = [Inr (JRef 1000), Inr (JRef 1000)]"
proof -
  let ?u1 = "demo_update (JStr '''') (JBool False) False 200 id"
  let ?us = "[demo_update (JStr '''') (JBool False) True 200 id,
              demo_update (JStr '''') (JBool False) True 200 id]"
  have p: "rerender ?u1 (snd (run [] (mount demo_world0))) = (Inr (JRef 1000), demo_mounted)"
    by (simp add: demo_eval)
  have f1: "field_of ?u1 = Some (demo_field (JStr '''') (JBool False))"
    by (simp add: demo_eval)
  have q: "pair_unchanged_from (demo_field (JStr '''') (JBool False)) ?us"
    by (simp add: demo_eval)
  have k: "render_of ?u1 = 200"
    by (simp add: demo_eval)
  have r: "render_unchanged_from 200 ?us"
    by (simp add: demo_eval)
  from output_referentially_stable [OF p f1 q] r k p q show ?thesis
    by (auto simp: numeral_2_eq_2)
qed

text \<open>
  C5 as stated fails: two consecutive renders with the same value and flag, the second
  with another function object as render prop, return two different elements.
\<close>

theorem output_not_stable_counterexample:
  "rerender (demo_update (JStr '''') (JBool False) False 200 id) (mount demo_world0)
     = (Inr (JRef 1000), demo_mounted)
   \<and> same_pair (demo_field (JStr '''') (JBool False)) (demo_field (JStr '''') (JBool False))
   \<and> fst (rerender (demo_update (JStr '''') (JBool False) False 201 id) demo_mounted)
       = Inr (JRef 1001)
   \<and> \<not> object_is (JRef 1001) (JRef 1000)"
  by (simp add: demo_eval)

end
